theory Spec2Isabelle
  imports Complex_Main
begin

section \<open>Outcomes of a call\<close>

text \<open>
  The notebook works on IEEE floating-point arrays through numpy and scipy. The model uses
  exact real and complex arithmetic. Two things can happen to a call that exact arithmetic
  does not show, and both are outcomes of the model:
  \<^item> a Python exception is raised (\<open>Raised\<close>);
  \<^item> numpy divides by zero or by nan: it warns, does not raise, and the arrays then hold
    inf or nan (\<open>NotFinite\<close>). The model follows such a computation no further.
\<close>

datatype error = ValueError | ZeroDivisionError | RuntimeError

datatype 'a outcome =
    is_Raised: Raised (the_error: error)
  | is_NotFinite: NotFinite
  | is_Returned: Returned (result: 'a)

section \<open>Arrays and matrices\<close>

text \<open>
  A one-dimensional numpy array is a list. A (sparse or dense) matrix is the list of its rows;
  \<open>square n M\<close> says that \<open>M\<close> has \<open>n\<close> rows of length \<open>n\<close>.
\<close>

definition square :: "nat \<Rightarrow> 'a list list \<Rightarrow> bool" where
  "square n M \<longleftrightarrow> length M = n \<and> (\<forall>r \<in> set M. length r = n)"

definition ncols :: "'a list list \<Rightarrow> nat" where
  "ncols M = (case M of [] \<Rightarrow> 0 | r # _ \<Rightarrow> length r)"

definition np_zeros :: "nat \<Rightarrow> real list" where
  "np_zeros n = replicate n 0"

definition np_ones :: "nat \<Rightarrow> real list" where
  "np_ones n = replicate n 1"

text \<open>
  \<open>np.linspace(start, stop, num, retstep=True)\<close> for \<open>num \<ge> 2\<close>: the samples
  \<open>i * step + start\<close> with the last one overwritten by \<open>stop\<close>, and the step. For
  \<open>num \<le> 1\<close> numpy returns the step nan; \<open>construct\<close> guards that case.
\<close>

definition linspace :: "real \<Rightarrow> real \<Rightarrow> nat \<Rightarrow> real list \<times> real" where
  "linspace start stop num =
     (let step = (stop - start) / real (num - 1);
          y = map (\<lambda>i. real i * step + start) [0..<num]
      in (if 1 < num then y[num - 1 := stop] else y, step))"

text \<open>Python's builtin \<open>sum\<close>: a left fold from 0.\<close>

definition py_sum :: "real list \<Rightarrow> real" where
  "py_sum xs = foldl (+) 0 xs"

text \<open>\<open>sparse.eye(n)\<close>.\<close>

definition eye :: "nat \<Rightarrow> complex list list" where
  "eye n = map (\<lambda>i. map (\<lambda>j. if i = j then 1 else 0) [0..<n]) [0..<n]"

text \<open>
  \<open>sparse.diags(diagonals, offsets)\<close>: the square matrix of size
  \<open>len(diagonals[0]) + |offsets[0]|\<close> that carries \<open>diagonals[k]\<close> on the diagonal
  \<open>offsets[k]\<close>, entry \<open>t\<close> of a diagonal going to row \<open>t\<close> (offset \<open>\<ge> 0\<close>) or to column
  \<open>t\<close> (offset \<open>< 0\<close>); entries on the same diagonal add up.
\<close>

definition diags :: "real list list \<Rightarrow> int list \<Rightarrow> real list list" where
  "diags diagonals offsets =
     (let n = length (hd diagonals) + nat \<bar>hd offsets\<bar>
      in map (\<lambda>i. map (\<lambda>j. sum_list (map (\<lambda>(d, k). if int j - int i = k then d ! min i j else 0)
                                        (zip diagonals offsets))) [0..<n]) [0..<n])"

text \<open>A complex scalar times a real matrix, and the sum and difference of two matrices.\<close>

definition scale :: "complex \<Rightarrow> real list list \<Rightarrow> complex list list" where
  "scale c M = map (map (\<lambda>h. c * complex_of_real h)) M"

definition mat_sub :: "complex list list \<Rightarrow> complex list list \<Rightarrow> complex list list" where
  "mat_sub A B = map2 (map2 (-)) A B"

definition mat_add :: "complex list list \<Rightarrow> complex list list \<Rightarrow> complex list list" where
  "mat_add A B = map2 (map2 (+)) A B"

text \<open>\<open>A.dot(B)\<close> for two matrices and \<open>A.dot(v)\<close> for a matrix and a vector.\<close>

definition dot_mm :: "complex list list \<Rightarrow> complex list list \<Rightarrow> complex list list" where
  "dot_mm A B =
     map (\<lambda>r. map (\<lambda>j. sum_list (map (\<lambda>k. r ! k * B ! k ! j) [0..<length B])) [0..<ncols B]) A"

definition dot_mv :: "complex list list \<Rightarrow> complex list \<Rightarrow> complex list" where
  "dot_mv A v = map (\<lambda>r. sum_list (map (\<lambda>k. r ! k * v ! k) [0..<length v])) A"

section \<open>The wave packet\<close>

text \<open>
  The seven arguments of \<open>WavePacket.__init__\<close> that are stored on the object are the fields
  of \<open>wave_params\<close>; \<open>init_args\<close> adds the two that are not (\<open>x_min\<close>, \<open>x_max\<close>), and
  \<open>WavePacket\<close> adds the attributes that \<open>__init__\<close> computes.
\<close>

record wave_params =
  grid_size :: int
  time_step :: real
  potential_height :: real
  potential_width :: real
  packet_width :: real
  wave_number :: real
  packet_center :: real

record init_args = wave_params +
  x_min :: real
  x_max :: real

record WavePacket = wave_params +
  prob_density :: "real list"
  x_values :: "real list"
  delta_x :: real
  wave_function :: "complex list"
  potential_barrier :: "real list"
  evolution_operator :: "complex list list"

text \<open>
  The steps of \<open>__init__\<close> are functions of its arguments. A value that \<open>__init__\<close>
  stores in an attribute has the attribute's name as a field of \<open>WavePacket\<close>, so the
  function that computes it is named apart: \<open>grid_x\<close> for \<open>x_values\<close>, \<open>grid_dx\<close> for
  \<open>delta_x\<close>, \<open>initial_wave_function\<close> for \<open>wave_function\<close> and \<open>barrier\<close> for
  \<open>potential_barrier\<close>. The local values keep their names.

  Step 1: the spatial grid.
\<close>

definition grid_x :: "'a init_args_scheme \<Rightarrow> real list" where
  "grid_x args = fst (linspace (x_min args) (x_max args) (nat (grid_size args)))"

definition grid_dx :: "'a init_args_scheme \<Rightarrow> real" where
  "grid_dx args = snd (linspace (x_min args) (x_max args) (nat (grid_size args)))"

text \<open>Step 2: the Gaussian, times the plane wave factor, times the normalization factor.\<close>

definition initial_wave_function :: "'a init_args_scheme \<Rightarrow> complex list" where
  "initial_wave_function args =
     (let w1 = map (\<lambda>x. complex_of_real
                     (exp (- (x - packet_center args)\<^sup>2 / (4 * (packet_width args)\<^sup>2))))
                   (grid_x args);
          w2 = map2 (\<lambda>w x. w * exp (\<i> * complex_of_real (wave_number args) * complex_of_real x))
                    w1 (grid_x args);
          w3 = map (\<lambda>w. w * complex_of_real ((2 * pi * (packet_width args)\<^sup>2) powr (- 0.25))) w2
      in w3)"

text \<open>Step 3: the potential barrier.\<close>

definition barrier :: "'a init_args_scheme \<Rightarrow> real list" where
  "barrier args =
     map (\<lambda>x. if 0 < x \<and> x < potential_width args then potential_height args else 0)
         (grid_x args)"

text \<open>Step 4: the Hamiltonian matrix.\<close>

definition diag_elements :: "'a init_args_scheme \<Rightarrow> real list" where
  "diag_elements args =
     map2 (+) (map (\<lambda>one. one / (grid_dx args)\<^sup>2) (np_ones (nat (grid_size args))))
              (barrier args)"

definition off_diag_elements :: "'a init_args_scheme \<Rightarrow> real list" where
  "off_diag_elements args =
     map (\<lambda>one. one * (- 0.5 / (grid_dx args)\<^sup>2)) (np_ones (nat (grid_size args - 1)))"

definition hamiltonian_matrix :: "'a init_args_scheme \<Rightarrow> real list list" where
  "hamiltonian_matrix args =
     diags [diag_elements args, off_diag_elements args, off_diag_elements args] [0, 1, - 1]"

text \<open>Step 5: the two Crank-Nicolson factors; \<open>2.0j\<close> is \<open>2 * \<i>\<close>.\<close>

definition backward_part :: "'a init_args_scheme \<Rightarrow> complex list list" where
  "backward_part args =
     mat_sub (eye (nat (grid_size args)))
             (scale (complex_of_real (time_step args) / (2 * \<i>)) (hamiltonian_matrix args))"

definition forward_part :: "'a init_args_scheme \<Rightarrow> complex list list" where
  "forward_part args =
     mat_add (eye (nat (grid_size args)))
             (scale (complex_of_real (time_step args) / (2 * \<i>)) (hamiltonian_matrix args))"

text \<open>
  \<open>WavePacket.__init__\<close>. The library routine \<open>scipy.sparse.linalg.inv\<close> is the parameter
  \<open>la_inv\<close>; it returns \<open>None\<close> where scipy raises a \<open>RuntimeError\<close> for a singular matrix.
  The guards follow the order of the statements:
  \<^item> \<open>np.zeros(grid_size)\<close> raises \<open>ValueError\<close> for a negative size;
  \<open>np.linspace\<close> accepts every size \<open>\<ge> 0\<close>;
  \<^item> \<open>(2.0 * np.pi * packet_width**2)**(-0.25)\<close> is a power of Python floats and raises
    \<open>ZeroDivisionError\<close> for \<open>packet_width = 0\<close> (the numpy division by
    \<open>4.0 * packet_width**2\<close> two lines before only warns);
  \<^item> \<open>np.ones(grid_size - 1)\<close> raises \<open>ValueError\<close> for \<open>grid_size = 0\<close>;
  \<^item> for \<open>grid_size = 1\<close> the step of \<open>np.linspace\<close> is nan and every array computed
    from it is nan; the matrix has one column, for which the library solves a vector system
    and only warns where it finds no pivot: nothing is raised;
  \<^item> for \<open>x_min = x_max\<close> on two grid points or more the step is 0 and the divisions by
    \<open>delta_x**2\<close> give inf with a warning only, so the matrix that reaches
    \<open>la.inv(backward_part)\<close> is no longer finite: the library finds no pivot in it and raises
    \<open>RuntimeError\<close>. Such a matrix is not a value of the parameter \<open>la_inv\<close>, so this
    outcome of the library is written into the guard.
\<close>

definition construct ::
  "(complex list list \<Rightarrow> complex list list option) \<Rightarrow> init_args \<Rightarrow> WavePacket outcome" where
  "construct la_inv args =
     (if grid_size args < 0 then Raised ValueError
      else if packet_width args = 0 then Raised ZeroDivisionError
      else if grid_size args = 0 then Raised ValueError
      else if grid_size args = 1 then NotFinite
      else if x_min args = x_max args then Raised RuntimeError
      else case la_inv (backward_part args) of
             None \<Rightarrow> Raised RuntimeError
           | Some backward_inv \<Rightarrow> Returned
               \<lparr> grid_size = grid_size args,
                 time_step = time_step args,
                 potential_height = potential_height args,
                 potential_width = potential_width args,
                 packet_width = packet_width args,
                 wave_number = wave_number args,
                 packet_center = packet_center args,
                 prob_density = np_zeros (nat (grid_size args)),
                 x_values = grid_x args,
                 delta_x = grid_dx args,
                 wave_function = initial_wave_function args,
                 potential_barrier = barrier args,
                 evolution_operator = dot_mm backward_inv (forward_part args) \<rparr>)"

text \<open>
  \<open>WavePacket.evolve_wave_function\<close>. The object is passed in and returned updated, next to
  the returned array (which is the object's own \<open>prob_density\<close>). \<open>dot\<close> raises
  \<open>ValueError\<close> when the operator's rows do not have the length of the wave function. When
  \<open>total_probability\<close> is 0, numpy's two in-place divisions are 0/0: they warn and fill both
  arrays with nan.
\<close>

definition evolve_wave_function :: "WavePacket \<Rightarrow> (WavePacket \<times> real list) outcome" where
  "evolve_wave_function self =
     (if \<exists>r \<in> set (evolution_operator self). length r \<noteq> length (wave_function self)
      then Raised ValueError
      else
        let wf1 = dot_mv (evolution_operator self) (wave_function self);
            pd1 = map (\<lambda>z. (cmod z)\<^sup>2) wf1;
            total_probability = py_sum pd1
        in if total_probability = 0 then NotFinite
           else
             let pd2 = map (\<lambda>p. p / total_probability) pd1;
                 wf2 = map (\<lambda>z. z / complex_of_real (total_probability powr 0.5)) wf1
             in Returned (self\<lparr>wave_function := wf2, prob_density := pd2\<rparr>, pd2))"

text \<open>
  \<open>k\<close> successive calls of \<open>evolve_wave_function\<close> on one object, as the loop of
  \<open>WaveAnimation.time_generator\<close> makes them; the result is the object after the last call.
\<close>

fun evolve_times :: "nat \<Rightarrow> WavePacket \<Rightarrow> WavePacket outcome" where
  "evolve_times 0 self = Returned self"
| "evolve_times (Suc k) self =
     (case evolve_wave_function self of
        Raised e \<Rightarrow> Raised e
      | NotFinite \<Rightarrow> NotFinite
      | Returned (self', _) \<Rightarrow> evolve_times k self')"

section \<open>The contract of the library's matrix inverse\<close>

text \<open>
  \<open>inverts la_inv M\<close>: on the matrix \<open>M\<close> the routine returns a matrix of the same size
  that is the inverse of \<open>M\<close> on both sides. Claims that depend on what
  \<open>scipy.sparse.linalg.inv\<close> returns assume this of the parameter, at the one matrix that
  \<open>__init__\<close> passes to it.
\<close>

definition is_inverse_of :: "complex list list \<Rightarrow> complex list list \<Rightarrow> bool" where
  "is_inverse_of X M \<longleftrightarrow>
     square (length M) X \<and> dot_mm X M = eye (length M) \<and> dot_mm M X = eye (length M)"

definition inverts :: "(complex list list \<Rightarrow> complex list list option) \<Rightarrow> complex list list \<Rightarrow> bool" where
  "inverts la_inv M = (case la_inv M of None \<Rightarrow> False | Some X \<Rightarrow> is_inverse_of X M)"

text \<open>
  An executable inverse to put in the parameter's place at concrete matrices: Gauss-Jordan
  elimination on the rows of the matrix extended by the rows of the identity, \<open>None\<close> when a
  column has no pivot.
\<close>

definition eliminate :: "nat \<Rightarrow> complex list list \<Rightarrow> complex list list option" where
  "eliminate c rows =
     (case find (\<lambda>p. rows ! p ! c \<noteq> 0) [c..<length rows] of
        None \<Rightarrow> None
      | Some p \<Rightarrow>
          let swapped = rows[c := rows ! p, p := rows ! c];
              pivot = map (\<lambda>x. x / swapped ! c ! c) (swapped ! c)
          in Some (map (\<lambda>i. if i = c then pivot
                            else map2 (\<lambda>x y. x - swapped ! i ! c * y) (swapped ! i) pivot)
                       [0..<length rows]))"

fun eliminate_all :: "nat list \<Rightarrow> complex list list \<Rightarrow> complex list list option" where
  "eliminate_all [] rows = Some rows"
| "eliminate_all (c # cs) rows =
     (case eliminate c rows of None \<Rightarrow> None | Some rows' \<Rightarrow> eliminate_all cs rows')"

definition gauss_jordan :: "complex list list \<Rightarrow> complex list list option" where
  "gauss_jordan M =
     map_option (map (drop (length M)))
       (eliminate_all [0..<length M] (map2 (@) M (eye (length M))))"

section \<open>Valid configurations\<close>

text \<open>
  The configurations that the specification calls valid: at least three grid points,
  increasing bounds, a barrier width that is not negative, a time step that is not zero and
  a positive packet width.
\<close>

definition valid_config :: "'a init_args_scheme \<Rightarrow> bool" where
  "valid_config args \<longleftrightarrow>
     3 \<le> grid_size args \<and> x_min args < x_max args \<and> 0 \<le> potential_width args \<and>
     time_step args \<noteq> 0 \<and> 0 < packet_width args"


section \<open>What the specification says\<close>

text \<open>
  The wave packet of the specification at the coordinate \<open>x\<close>:
  \<open>(2\<pi>\<sigma>\<^sup>2)\<^sup>-\<^sup>1\<^sup>/\<^sup>4 \<cdot> exp(-(x - center)\<^sup>2 / (4\<sigma>\<^sup>2)) \<cdot> exp(i \<cdot> k \<cdot> x)\<close>.
\<close>

definition spec_packet :: "real \<Rightarrow> real \<Rightarrow> real \<Rightarrow> real \<Rightarrow> complex" where
  "spec_packet sigma center k x =
     complex_of_real ((2 * pi * sigma\<^sup>2) powr (- 1 / 4)) *
     complex_of_real (exp (- (x - center)\<^sup>2 / (4 * sigma\<^sup>2))) *
     exp (\<i> * complex_of_real k * complex_of_real x)"

text \<open>
  The two factors of the propagation operator of the specification,
  \<open>I + i\<Delta>t/2 \<cdot> H\<close> and \<open>I - i\<Delta>t/2 \<cdot> H\<close>, for a Hamiltonian \<open>H\<close> of size \<open>n\<close>.
\<close>

definition spec_implicit_factor :: "nat \<Rightarrow> real \<Rightarrow> real list list \<Rightarrow> complex list list" where
  "spec_implicit_factor n dt H = mat_add (eye n) (scale (\<i> * complex_of_real dt / 2) H)"

definition spec_explicit_factor :: "nat \<Rightarrow> real \<Rightarrow> real list list \<Rightarrow> complex list list" where
  "spec_explicit_factor n dt H = mat_sub (eye n) (scale (\<i> * complex_of_real dt / 2) H)"

text \<open>
  The total probability that a call of \<open>evolve_wave_function\<close> computes and divides by.
\<close>

definition total_probability_of :: "WavePacket \<Rightarrow> real" where
  "total_probability_of self =
     py_sum (map (\<lambda>z. (cmod z)\<^sup>2) (dot_mv (evolution_operator self) (wave_function self)))"

text \<open>The operator's rows have the length of the wave function, so that \<open>dot\<close> applies.\<close>

definition shapes_agree :: "WavePacket \<Rightarrow> bool" where
  "shapes_agree self \<longleftrightarrow>
     (\<forall>r \<in> set (evolution_operator self). length r = length (wave_function self))"

section \<open>Invariants of the stepping\<close>

text \<open>
  \<open>nondegenerate n self\<close>: the wave function has \<open>n\<close> entries, not all zero, and the operator
  is an \<open>n \<times> n\<close> matrix that sends no other vector than zero to zero.
\<close>

definition nondegenerate :: "nat \<Rightarrow> WavePacket \<Rightarrow> bool" where
  "nondegenerate n self \<longleftrightarrow>
     length (wave_function self) = n \<and> square n (evolution_operator self) \<and>
     wave_function self \<noteq> replicate n 0 \<and>
     (\<forall>v. length v = n \<longrightarrow> dot_mv (evolution_operator self) v = replicate n 0 \<longrightarrow>
          v = replicate n 0)"

text \<open>\<open>commutes_with_rev n M\<close>: applying \<open>M\<close> to a reversed vector reverses the result.\<close>

definition commutes_with_rev :: "nat \<Rightarrow> complex list list \<Rightarrow> bool" where
  "commutes_with_rev n M \<longleftrightarrow> (\<forall>v. length v = n \<longrightarrow> dot_mv M (rev v) = rev (dot_mv M v))"

definition mirror_symmetric :: "nat \<Rightarrow> WavePacket \<Rightarrow> bool" where
  "mirror_symmetric n self \<longleftrightarrow>
     rev (wave_function self) = wave_function self \<and>
     commutes_with_rev n (evolution_operator self)"

text \<open>
  What a step leaves alone: every attribute but \<open>wave_function\<close> and \<open>prob_density\<close>.
\<close>

definition same_but_state :: "WavePacket \<Rightarrow> WavePacket \<Rightarrow> bool" where
  "same_but_state self self' \<longleftrightarrow>
     self' = self\<lparr>wave_function := wave_function self', prob_density := prob_density self'\<rparr>"

section \<open>Concrete inputs\<close>

text \<open>
  A valid configuration on three grid points \<open>-1, 0, 1\<close>, free of a barrier, with a packet at
  rest in the middle.
\<close>

definition three_point_args :: init_args where
  "three_point_args =
     \<lparr> grid_size = 3, time_step = 2, potential_height = 0, potential_width = 0,
       packet_width = 1, wave_number = 0, packet_center = 0, x_min = - 1, x_max = 1 \<rparr>"

text \<open>The same with a barrier of height 1 on \<open>0 < x < 2\<close> and a moving packet.\<close>

definition barrier_args :: init_args where
  "barrier_args =
     \<lparr> grid_size = 3, time_step = 2, potential_height = 1, potential_width = 2,
       packet_width = 1, wave_number = 1, packet_center = 0, x_min = - 1, x_max = 1 \<rparr>"


text \<open>
  An object on three grid points whose wave function has underflowed to zero, with the identity
  as its operator.
\<close>

definition vanished_packet :: WavePacket where
  "vanished_packet =
     \<lparr> grid_size = 3, time_step = 0, potential_height = 0, potential_width = 0,
       packet_width = 1, wave_number = 0, packet_center = 0,
       prob_density = [0, 0, 0], x_values = [- 1, 0, 1], delta_x = 1,
       wave_function = [0, 0, 0], potential_barrier = [0, 0, 0],
       evolution_operator = eye 3 \<rparr>"

text \<open>An object on two grid points with a wave function that is not zero.\<close>

definition two_point_packet :: WavePacket where
  "two_point_packet =
     \<lparr> grid_size = 2, time_step = 0, potential_height = 0, potential_width = 0,
       packet_width = 1, wave_number = 0, packet_center = 0,
       prob_density = [0, 0], x_values = [0, 1], delta_x = 1,
       wave_function = [3, 4 * \<i>], potential_barrier = [0, 0],
       evolution_operator = eye 2 \<rparr>"

section \<open>Basic facts\<close>

subsection \<open>Sums and lists\<close>

lemma sum_list_upt: "sum_list (map f [0..<n]) = (\<Sum>k<n. f k)"
  by (simp add: interv_sum_list_conv_sum_set_nat atLeast0LessThan)

lemma py_sum_eq: "py_sum xs = sum_list xs"
proof -
  have "foldl (+) a xs = a + sum_list xs" for a :: real
    by (induction xs arbitrary: a) (simp_all add: add.assoc)
  from this [of 0] show ?thesis by (simp add: py_sum_def)
qed

lemma sum_list_sq_eq_0:
  "sum_list (map (\<lambda>z. (cmod z)\<^sup>2) v) = 0 \<longleftrightarrow> (\<forall>z \<in> set v. z = 0)"
proof -
  have "sum_list (map (\<lambda>z. (cmod z)\<^sup>2) v) = 0 \<longleftrightarrow>
        (\<forall>x \<in> set (map (\<lambda>z. (cmod z)\<^sup>2) v). x = 0)"
    by (rule sum_list_nonneg_eq_0_iff) auto
  then show ?thesis by simp
qed

subsection \<open>The grid\<close>

lemma length_linspace: "length (fst (linspace a b n)) = n"
  by (simp add: linspace_def Let_def)

lemma linspace_nth:
  assumes "2 \<le> n" "i < n"
  shows "fst (linspace a b n) ! i = a + real i * ((b - a) / real (n - 1))"
proof (cases "i = n - 1")
  case True
  with assms have "fst (linspace a b n) ! i = b"
    by (simp add: linspace_def Let_def)
  moreover from assms have "real (n - 1) \<noteq> 0" by simp
  then have "a + real (n - 1) * ((b - a) / real (n - 1)) = b" by simp
  ultimately show ?thesis using True by simp
next
  case False
  with assms show ?thesis
    by (simp add: linspace_def Let_def)
qed

lemma length_grid_x: "length (grid_x args) = nat (grid_size args)"
  by (simp add: grid_x_def length_linspace)

lemma grid_dx_eq: "grid_dx args = (x_max args - x_min args) / real (nat (grid_size args) - 1)"
  by (simp add: grid_dx_def linspace_def Let_def)

lemma grid_x_nth:
  "2 \<le> grid_size args \<Longrightarrow> i < nat (grid_size args) \<Longrightarrow>
   grid_x args ! i = x_min args + real i * grid_dx args"
  by (simp add: grid_x_def grid_dx_eq linspace_nth)

lemma grid_dx_nonzero:
  "2 \<le> grid_size args \<Longrightarrow> x_min args \<noteq> x_max args \<Longrightarrow> grid_dx args \<noteq> 0"
  by (simp add: grid_dx_eq)

lemma grid_x_reflect:
  assumes "2 \<le> grid_size args" "i < nat (grid_size args)"
  shows "grid_x args ! (nat (grid_size args) - 1 - i) = x_min args + x_max args - grid_x args ! i"
proof -
  let ?n = "nat (grid_size args)"
  from assms have n: "2 \<le> ?n" "?n - 1 - i < ?n" by linarith+
  from assms have r: "real (?n - 1 - i) = real (?n - 1) - real i" by (simp add: of_nat_diff)
  from n have nz: "real (?n - 1) \<noteq> 0" by simp
  have "x_min args + real (?n - 1 - i) * grid_dx args =
        x_min args + x_max args - (x_min args + real i * grid_dx args)"
    unfolding r grid_dx_eq using nz by (simp add: field_simps)
  with assms n show ?thesis by (simp add: grid_x_nth)
qed

subsection \<open>The potential barrier\<close>

lemma length_barrier: "length (barrier args) = nat (grid_size args)"
  by (simp add: barrier_def length_grid_x)

lemma barrier_nth:
  "i < nat (grid_size args) \<Longrightarrow>
   barrier args ! i =
     (if 0 < grid_x args ! i \<and> grid_x args ! i < potential_width args
      then potential_height args else 0)"
  by (simp add: barrier_def length_grid_x)

subsection \<open>Entries of matrices\<close>

lemma square_nth: "square n M \<Longrightarrow> i < n \<Longrightarrow> length (M ! i) = n"
  by (simp add: square_def)

lemma square_length: "square n M \<Longrightarrow> length M = n"
  by (simp add: square_def)

lemma square_ncols: "square n M \<Longrightarrow> ncols M = n"
  by (cases M) (simp_all add: square_def ncols_def)

lemma square_eye: "square n (eye n)"
  by (auto simp: square_def eye_def)

lemma eye_nth: "i < n \<Longrightarrow> j < n \<Longrightarrow> eye n ! i ! j = (if i = j then 1 else 0)"
  by (simp add: eye_def)

lemma length_dot_mv: "length (dot_mv A v) = length A"
  by (simp add: dot_mv_def)

lemma dot_mv_nth:
  "i < length A \<Longrightarrow> dot_mv A v ! i = (\<Sum>k<length v. A ! i ! k * v ! k)"
  by (simp add: dot_mv_def sum_list_upt)

lemma dot_mm_nth:
  "i < length A \<Longrightarrow> j < ncols B \<Longrightarrow>
   dot_mm A B ! i ! j = (\<Sum>k<length B. A ! i ! k * B ! k ! j)"
  by (simp add: dot_mm_def sum_list_upt)

lemma length_dot_mm: "length (dot_mm A B) = length A"
  by (simp add: dot_mm_def)

lemma square_dot_mm: "square n A \<Longrightarrow> square n B \<Longrightarrow> square n (dot_mm A B)"
  by (auto simp: square_def dot_mm_def dest: square_ncols [unfolded square_def, OF conjI])

lemma matrix_eqI:
  assumes "square n A" "square n B" "\<And>i j. i < n \<Longrightarrow> j < n \<Longrightarrow> A ! i ! j = B ! i ! j"
  shows "A = B"
proof (rule nth_equalityI)
  show "length A = length B" using assms by (simp add: square_def)
next
  fix i assume "i < length A"
  with assms have i: "i < n" by (simp add: square_def)
  show "A ! i = B ! i"
    by (rule nth_equalityI) (use assms i in \<open>simp_all add: square_nth\<close>)
qed

text \<open>Applying a product of matrices is applying the factors one after the other.\<close>

lemma dot_mv_dot_mm:
  assumes X: "square n X" and B: "square n B" and v: "length v = n"
  shows "dot_mv (dot_mm X B) v = dot_mv X (dot_mv B v)"
proof (rule nth_equalityI)
  show "length (dot_mv (dot_mm X B) v) = length (dot_mv X (dot_mv B v))"
    by (simp add: length_dot_mv length_dot_mm)
next
  fix i assume "i < length (dot_mv (dot_mm X B) v)"
  then have i: "i < n" using X by (simp add: length_dot_mv length_dot_mm square_def)
  have "dot_mv (dot_mm X B) v ! i = (\<Sum>k<n. (\<Sum>l<n. X ! i ! l * B ! l ! k) * v ! k)"
    using i X B v by (simp add: dot_mv_nth length_dot_mm square_length dot_mm_nth square_ncols)
  also have "\<dots> = (\<Sum>k<n. \<Sum>l<n. X ! i ! l * (B ! l ! k * v ! k))"
    by (simp add: sum_distrib_right mult.assoc)
  also have "\<dots> = (\<Sum>l<n. \<Sum>k<n. X ! i ! l * (B ! l ! k * v ! k))"
    by (rule sum.swap)
  also have "\<dots> = (\<Sum>l<n. X ! i ! l * (\<Sum>k<n. B ! l ! k * v ! k))"
    by (simp add: sum_distrib_left)
  also have "\<dots> = dot_mv X (dot_mv B v) ! i"
    using i X B v by (simp add: dot_mv_nth length_dot_mv square_length)
  finally show "dot_mv (dot_mm X B) v ! i = dot_mv X (dot_mv B v) ! i" .
qed

lemma dot_mv_eye: "length v = n \<Longrightarrow> dot_mv (eye n) v = v"
proof (rule nth_equalityI)
  show "length v = n \<Longrightarrow> length (dot_mv (eye n) v) = length v"
    by (simp add: length_dot_mv eye_def)
next
  fix i assume v: "length v = n" and "i < length (dot_mv (eye n) v)"
  then have i: "i < n" by (simp add: length_dot_mv eye_def)
  have "dot_mv (eye n) v ! i = (\<Sum>k<n. (if i = k then 1 else 0) * v ! k)"
    using i v by (simp add: dot_mv_nth eye_def)
  also have "\<dots> = (\<Sum>k<n. if k = i then v ! k else 0)"
    by (rule sum.cong) auto
  also have "\<dots> = v ! i" using i by simp
  finally show "dot_mv (eye n) v ! i = v ! i" .
qed

lemma dot_mv_zero: "square n A \<Longrightarrow> dot_mv A (replicate n 0) = replicate n 0"
  by (rule nth_equalityI) (simp_all add: length_dot_mv square_def dot_mv_nth)


subsection \<open>The Hamiltonian\<close>

lemma length_diag_elements: "length (diag_elements args) = nat (grid_size args)"
  by (simp add: diag_elements_def np_ones_def length_barrier)

lemma diag_elements_nth:
  "i < nat (grid_size args) \<Longrightarrow>
   diag_elements args ! i = 1 / (grid_dx args)\<^sup>2 + barrier args ! i"
  by (simp add: diag_elements_def np_ones_def length_barrier)

lemma length_off_diag_elements: "length (off_diag_elements args) = nat (grid_size args) - 1"
  by (simp add: off_diag_elements_def np_ones_def nat_diff_distrib')

lemma off_diag_elements_nth:
  "Suc i < nat (grid_size args) \<Longrightarrow> off_diag_elements args ! i = - 0.5 / (grid_dx args)\<^sup>2"
  by (simp add: off_diag_elements_def np_ones_def nat_diff_distrib')

lemma square_hamiltonian: "square (nat (grid_size args)) (hamiltonian_matrix args)"
  by (auto simp: square_def hamiltonian_matrix_def diags_def Let_def length_diag_elements)

lemma hamiltonian_nth:
  assumes "i < nat (grid_size args)" "j < nat (grid_size args)"
  shows "hamiltonian_matrix args ! i ! j =
           (if i = j then 1 / (grid_dx args)\<^sup>2 + barrier args ! i
            else if j = Suc i \<or> i = Suc j then - 0.5 / (grid_dx args)\<^sup>2
            else 0)"
proof -
  have "hamiltonian_matrix args ! i ! j =
          (if int j - int i = 0 then diag_elements args ! min i j else 0) +
          ((if int j - int i = 1 then off_diag_elements args ! min i j else 0) +
           (if int j - int i = - 1 then off_diag_elements args ! min i j else 0))"
    using assms by (simp add: hamiltonian_matrix_def diags_def Let_def length_diag_elements)
  also have "\<dots> = (if i = j then 1 / (grid_dx args)\<^sup>2 + barrier args ! i
            else if j = Suc i \<or> i = Suc j then - 0.5 / (grid_dx args)\<^sup>2
            else 0)"
  proof -
    consider "i = j" | "j = Suc i" | "i = Suc j" | "i \<noteq> j" "j \<noteq> Suc i" "i \<noteq> Suc j"
      by blast
    then show ?thesis
    proof cases
      case 1
      with assms show ?thesis by (simp add: diag_elements_nth)
    next
      case 2
      with assms have "min i j = i" "Suc i < nat (grid_size args)" by simp_all
      with 2 show ?thesis by (simp add: off_diag_elements_nth)
    next
      case 3
      with assms have "min i j = j" "Suc j < nat (grid_size args)" by simp_all
      with 3 show ?thesis by (simp add: off_diag_elements_nth)
    next
      case 4
      then have "int j - int i \<noteq> 0" "int j - int i \<noteq> 1" "int j - int i \<noteq> - 1" by linarith+
      with 4 show ?thesis by simp
    qed
  qed
  finally show ?thesis .
qed

lemma hamiltonian_symmetric:
  "i < nat (grid_size args) \<Longrightarrow> j < nat (grid_size args) \<Longrightarrow>
   hamiltonian_matrix args ! i ! j = hamiltonian_matrix args ! j ! i"
  by (auto simp: hamiltonian_nth)

subsection \<open>The Crank-Nicolson factors\<close>

lemma square_scale: "square n M \<Longrightarrow> square n (scale c M)"
  by (simp add: square_def scale_def)

lemma square_mat_sub: "square n A \<Longrightarrow> square n B \<Longrightarrow> square n (mat_sub A B)"
  by (auto simp: square_def mat_sub_def set_zip)

lemma square_mat_add: "square n A \<Longrightarrow> square n B \<Longrightarrow> square n (mat_add A B)"
  by (auto simp: square_def mat_add_def set_zip)

lemma square_backward_part: "square (nat (grid_size args)) (backward_part args)"
  by (simp add: backward_part_def square_mat_sub square_eye square_scale square_hamiltonian)

lemma square_forward_part: "square (nat (grid_size args)) (forward_part args)"
  by (simp add: forward_part_def square_mat_add square_eye square_scale square_hamiltonian)

lemma scale_nth:
  "square n M \<Longrightarrow> i < n \<Longrightarrow> j < n \<Longrightarrow> scale c M ! i ! j = c * complex_of_real (M ! i ! j)"
  by (simp add: scale_def square_def)

lemma mat_sub_nth:
  "square n A \<Longrightarrow> square n B \<Longrightarrow> i < n \<Longrightarrow> j < n \<Longrightarrow>
   mat_sub A B ! i ! j = A ! i ! j - B ! i ! j"
  by (simp add: mat_sub_def square_def)

lemma mat_add_nth:
  "square n A \<Longrightarrow> square n B \<Longrightarrow> i < n \<Longrightarrow> j < n \<Longrightarrow>
   mat_add A B ! i ! j = A ! i ! j + B ! i ! j"
  by (simp add: mat_add_def square_def)

lemma half_step: "complex_of_real t / (2 * \<i>) = - (\<i> * complex_of_real t / 2)"
  by (simp add: complex_eq_iff Re_divide Im_divide power2_eq_square)

lemma backward_part_nth:
  assumes "i < nat (grid_size args)" "j < nat (grid_size args)"
  shows "backward_part args ! i ! j =
           (if i = j then 1 else 0) +
           \<i> * complex_of_real (time_step args) / 2 * complex_of_real (hamiltonian_matrix args ! i ! j)"
  using assms
  by (simp add: backward_part_def half_step eye_nth
      mat_sub_nth [OF square_eye square_scale [OF square_hamiltonian]]
      scale_nth [OF square_hamiltonian])

lemma forward_part_nth:
  assumes "i < nat (grid_size args)" "j < nat (grid_size args)"
  shows "forward_part args ! i ! j =
           (if i = j then 1 else 0) -
           \<i> * complex_of_real (time_step args) / 2 * complex_of_real (hamiltonian_matrix args ! i ! j)"
  using assms
  by (simp add: forward_part_def half_step eye_nth
      mat_add_nth [OF square_eye square_scale [OF square_hamiltonian]]
      scale_nth [OF square_hamiltonian])


subsection \<open>One step\<close>

lemma total_probability_nonneg: "0 \<le> total_probability_of self"
  unfolding total_probability_of_def py_sum_eq by (rule sum_list_nonneg) auto

lemma evolve_Raised:
  "\<not> shapes_agree self \<Longrightarrow> evolve_wave_function self = Raised ValueError"
  by (simp add: evolve_wave_function_def shapes_agree_def)

lemma evolve_NotFinite:
  "shapes_agree self \<Longrightarrow> total_probability_of self = 0 \<Longrightarrow>
   evolve_wave_function self = NotFinite"
  by (simp add: evolve_wave_function_def shapes_agree_def total_probability_of_def Let_def)

lemma evolve_Returned:
  assumes "shapes_agree self" "total_probability_of self \<noteq> 0"
  shows "evolve_wave_function self =
           Returned
             (self\<lparr>wave_function :=
                     map (\<lambda>z. z / complex_of_real (total_probability_of self powr 0.5))
                         (dot_mv (evolution_operator self) (wave_function self)),
                   prob_density :=
                     map (\<lambda>z. (cmod z)\<^sup>2 / total_probability_of self)
                         (dot_mv (evolution_operator self) (wave_function self))\<rparr>,
              map (\<lambda>z. (cmod z)\<^sup>2 / total_probability_of self)
                  (dot_mv (evolution_operator self) (wave_function self)))"
  using assms
  by (simp add: evolve_wave_function_def shapes_agree_def total_probability_of_def Let_def o_def)

lemma sum_list_divide_const:
  "sum_list (map (\<lambda>x. f x / c) xs) = sum_list (map f xs) / (c::real)"
  by (induction xs) (simp_all add: add_divide_distrib)

lemma normalized_density_sum:
  assumes "total_probability_of self \<noteq> 0"
  shows "py_sum (map (\<lambda>z. (cmod z)\<^sup>2 / total_probability_of self)
                     (dot_mv (evolution_operator self) (wave_function self))) = 1"
proof -
  have "sum_list (map (\<lambda>z. (cmod z)\<^sup>2 / total_probability_of self)
                      (dot_mv (evolution_operator self) (wave_function self)))
        = total_probability_of self / total_probability_of self"
    unfolding sum_list_divide_const by (simp add: total_probability_of_def py_sum_eq)
  with assms show ?thesis by (simp add: py_sum_eq)
qed

lemma cmod_normalized:
  assumes "0 < t"
  shows "(cmod (z / complex_of_real (t powr 0.5)))\<^sup>2 = (cmod z)\<^sup>2 / t"
proof -
  have "t powr 0.5 = sqrt t" using assms powr_half_sqrt [of t] by simp
  then have "cmod (z / complex_of_real (t powr 0.5)) = cmod z / sqrt t"
    using assms by (simp add: norm_divide)
  then show ?thesis using assms by (simp add: power_divide)
qed

subsection \<open>Evaluation at the concrete objects\<close>

lemma vanished_shapes: "shapes_agree vanished_packet"
  by (simp add: shapes_agree_def vanished_packet_def eye_def eval_nat_numeral upt_rec)

lemma vanished_total: "total_probability_of vanished_packet = 0"
  by (simp add: total_probability_of_def vanished_packet_def py_sum_def dot_mv_def eye_def
      eval_nat_numeral upt_rec)

lemma two_point_shapes: "shapes_agree two_point_packet"
  by (simp add: shapes_agree_def two_point_packet_def eye_def eval_nat_numeral upt_rec)

lemma two_point_total: "total_probability_of two_point_packet = 25"
  by (simp add: total_probability_of_def two_point_packet_def py_sum_def dot_mv_def eye_def
      eval_nat_numeral upt_rec norm_mult)


section \<open>The step operation\<close>

text \<open>
  C2. A call of \<open>evolve_wave_function\<close> in which the total probability is not zero returns a
  density array whose entries are all \<open>\<ge> 0\<close> and sum (with Python's \<open>sum\<close>) to exactly 1
  in exact arithmetic. This holds for every object on which the operator applies to the wave
  function, so for every constructed engine after any number of earlier calls.
\<close>

theorem density_nonnegative_and_normalized:
  assumes "shapes_agree self" and "total_probability_of self \<noteq> 0"
  shows "\<exists>self' density.
           evolve_wave_function self = Returned (self', density) \<and>
           (\<forall>p \<in> set density. 0 \<le> p) \<and> py_sum density = 1"
proof -
  let ?d = "map (\<lambda>z. (cmod z)\<^sup>2 / total_probability_of self)
                (dot_mv (evolution_operator self) (wave_function self))"
  from assms(2) total_probability_nonneg [of self] have "0 < total_probability_of self"
    by simp
  then have "\<forall>p \<in> set ?d. 0 \<le> p" by auto
  moreover have "py_sum ?d = 1" by (rule normalized_density_sum [OF assms(2)])
  ultimately show ?thesis using evolve_Returned [OF assms] by blast
qed

theorem density_nonnegative_and_normalized_witness:
  "shapes_agree two_point_packet \<and> total_probability_of two_point_packet \<noteq> 0 \<and>
   (\<exists>self' density.
      evolve_wave_function two_point_packet = Returned (self', density) \<and>
      (\<forall>p \<in> set density. 0 \<le> p) \<and> py_sum density = 1)"
  using density_nonnegative_and_normalized [of two_point_packet]
  by (simp add: two_point_shapes two_point_total)

text \<open>
  C10. After a call in which the total probability is not zero, the stored wave function is
  renormalized: the squared moduli of its entries sum to exactly 1, and the returned density, which
  is also the stored one, is the squared modulus of the stored wave function, entry by entry.
\<close>

theorem wave_function_consistent_with_density:
  assumes "shapes_agree self" and "total_probability_of self \<noteq> 0"
  shows "\<exists>self' density.
           evolve_wave_function self = Returned (self', density) \<and>
           py_sum (map (\<lambda>z. (cmod z)\<^sup>2) (wave_function self')) = 1 \<and>
           density = map (\<lambda>z. (cmod z)\<^sup>2) (wave_function self') \<and>
           prob_density self' = density"
proof -
  let ?t = "total_probability_of self"
  let ?w = "dot_mv (evolution_operator self) (wave_function self)"
  from assms(2) total_probability_nonneg [of self] have pos: "0 < ?t" by simp
  have eq: "map (\<lambda>z. (cmod z)\<^sup>2) (map (\<lambda>z. z / complex_of_real (?t powr 0.5)) ?w) =
            map (\<lambda>z. (cmod z)\<^sup>2 / ?t) ?w"
    using cmod_normalized [OF pos] by (simp add: o_def)
  have "py_sum (map (\<lambda>z. (cmod z)\<^sup>2) (map (\<lambda>z. z / complex_of_real (?t powr 0.5)) ?w)) = 1"
    unfolding eq by (rule normalized_density_sum [OF assms(2)])
  with eq show ?thesis using evolve_Returned [OF assms] by simp
qed

theorem wave_function_consistent_with_density_witness:
  "shapes_agree two_point_packet \<and> total_probability_of two_point_packet \<noteq> 0 \<and>
   (\<exists>self' density.
      evolve_wave_function two_point_packet = Returned (self', density) \<and>
      py_sum (map (\<lambda>z. (cmod z)\<^sup>2) (wave_function self')) = 1 \<and>
      density = map (\<lambda>z. (cmod z)\<^sup>2) (wave_function self') \<and>
      prob_density self' = density)"
  using wave_function_consistent_with_density [of two_point_packet]
  by (simp add: two_point_shapes two_point_total)

text \<open>
  C4, as the code has it. The claim asks for a \<open>DegenerateState\<close> error when the total
  probability is zero. The code has no such check: on the object \<open>vanished_packet\<close> the total
  is zero and the call raises nothing.
\<close>

theorem zero_total_raises_counterexample:
  "shapes_agree vanished_packet \<and> total_probability_of vanished_packet = 0 \<and>
   \<not> is_Raised (evolve_wave_function vanished_packet)"
  by (simp add: vanished_shapes vanished_total evolve_NotFinite)

text \<open>
  C4, amended. When the total probability of a step is zero, the step raises no error: numpy
  carries out the two divisions by zero with a warning only, and the call returns with arrays
  that are no longer finite.
\<close>

theorem zero_total_not_finite:
  assumes "shapes_agree self" and "total_probability_of self = 0"
  shows "evolve_wave_function self = NotFinite"
  using assms by (rule evolve_NotFinite)

theorem zero_total_not_finite_witness:
  "shapes_agree vanished_packet \<and> total_probability_of vanished_packet = 0 \<and>
   evolve_wave_function vanished_packet = NotFinite"
  using zero_total_not_finite [of vanished_packet]
  by (simp add: vanished_shapes vanished_total)


section \<open>Construction\<close>

lemma construct_Returned:
  assumes "2 \<le> grid_size args" "x_min args \<noteq> x_max args" "packet_width args \<noteq> 0"
    and "la_inv (backward_part args) = Some X"
  shows "construct la_inv args = Returned
           \<lparr> grid_size = grid_size args,
             time_step = time_step args,
             potential_height = potential_height args,
             potential_width = potential_width args,
             packet_width = packet_width args,
             wave_number = wave_number args,
             packet_center = packet_center args,
             prob_density = np_zeros (nat (grid_size args)),
             x_values = grid_x args,
             delta_x = grid_dx args,
             wave_function = initial_wave_function args,
             potential_barrier = barrier args,
             evolution_operator = dot_mm X (forward_part args) \<rparr>"
  using assms by (simp add: construct_def)

lemma construct_ReturnedD:
  assumes "construct la_inv args = Returned self"
  shows "2 \<le> grid_size args" "x_min args \<noteq> x_max args" "packet_width args \<noteq> 0"
    "x_values self = grid_x args" "delta_x self = grid_dx args"
    "wave_function self = initial_wave_function args"
    "potential_barrier self = barrier args"
    "prob_density self = np_zeros (nat (grid_size args))"
    "\<exists>X. la_inv (backward_part args) = Some X \<and>
         evolution_operator self = dot_mm X (forward_part args)"
  using assms by (auto simp: construct_def split: if_splits option.splits)

lemma valid_configD:
  assumes "valid_config args"
  shows "2 \<le> grid_size args" "x_min args \<noteq> x_max args" "packet_width args \<noteq> 0"
    "2 \<le> nat (grid_size args)" "0 < packet_width args"
  using assms by (auto simp: valid_config_def)

subsection \<open>The initial wave function\<close>

lemma length_initial_wave_function:
  "length (initial_wave_function args) = nat (grid_size args)"
  by (simp add: initial_wave_function_def Let_def length_grid_x)

lemma initial_wave_function_nth:
  assumes "i < nat (grid_size args)"
  shows "initial_wave_function args ! i =
           complex_of_real (exp (- (grid_x args ! i - packet_center args)\<^sup>2 /
                                 (4 * (packet_width args)\<^sup>2))) *
           exp (\<i> * complex_of_real (wave_number args) * complex_of_real (grid_x args ! i)) *
           complex_of_real ((2 * pi * (packet_width args)\<^sup>2) powr (- 0.25))"
  using assms by (simp add: initial_wave_function_def Let_def length_grid_x)

subsection \<open>The factors of the specification\<close>

lemma backward_part_spec:
  "backward_part args =
     spec_implicit_factor (nat (grid_size args)) (time_step args) (hamiltonian_matrix args)"
proof (rule matrix_eqI [OF square_backward_part])
  show "square (nat (grid_size args))
          (spec_implicit_factor (nat (grid_size args)) (time_step args) (hamiltonian_matrix args))"
    by (simp add: spec_implicit_factor_def square_mat_add square_eye square_scale
        square_hamiltonian)
next
  fix i j assume "i < nat (grid_size args)" "j < nat (grid_size args)"
  then show "backward_part args ! i ! j =
      spec_implicit_factor (nat (grid_size args)) (time_step args) (hamiltonian_matrix args) ! i ! j"
    by (simp add: backward_part_nth spec_implicit_factor_def eye_nth
        mat_add_nth [OF square_eye square_scale [OF square_hamiltonian]]
        scale_nth [OF square_hamiltonian])
qed

lemma forward_part_spec:
  "forward_part args =
     spec_explicit_factor (nat (grid_size args)) (time_step args) (hamiltonian_matrix args)"
proof (rule matrix_eqI [OF square_forward_part])
  show "square (nat (grid_size args))
          (spec_explicit_factor (nat (grid_size args)) (time_step args) (hamiltonian_matrix args))"
    by (simp add: spec_explicit_factor_def square_mat_sub square_eye square_scale
        square_hamiltonian)
next
  fix i j assume "i < nat (grid_size args)" "j < nat (grid_size args)"
  then show "forward_part args ! i ! j =
      spec_explicit_factor (nat (grid_size args)) (time_step args) (hamiltonian_matrix args) ! i ! j"
    by (simp add: forward_part_nth spec_explicit_factor_def eye_nth
        mat_sub_nth [OF square_eye square_scale [OF square_hamiltonian]]
        scale_nth [OF square_hamiltonian])
qed


section \<open>Evaluation at the concrete configurations\<close>

lemma Complex_arith:
  "Complex a b + Complex c d = Complex (a + c) (b + d)"
  "Complex a b - Complex c d = Complex (a - c) (b - d)"
  "Complex a b * Complex c d = Complex (a * c - b * d) (a * d + b * c)"
  "Complex a b / Complex c d =
     Complex ((a * c + b * d) / (c\<^sup>2 + d\<^sup>2)) ((b * c - a * d) / (c\<^sup>2 + d\<^sup>2))"
  "(0::complex) = Complex 0 0"
  "(1::complex) = Complex 1 0"
  by (simp_all add: complex_eq_iff Re_divide Im_divide)

lemmas eval_list = eval_nat_numeral upt_rec Let_def

lemma three_point_valid: "valid_config three_point_args"
  by (simp add: valid_config_def three_point_args_def)

lemma three_point_grid:
  "grid_dx three_point_args = 1" "grid_x three_point_args = [- 1, 0, 1]"
  by (simp_all add: grid_dx_def grid_x_def linspace_def three_point_args_def eval_list)

lemma three_point_hamiltonian:
  "hamiltonian_matrix three_point_args = [[1, - 1 / 2, 0], [- 1 / 2, 1, - 1 / 2], [0, - 1 / 2, 1]]"
  by (simp add: hamiltonian_matrix_def diags_def diag_elements_def off_diag_elements_def
      barrier_def three_point_grid np_ones_def Let_def)
     (simp add: three_point_args_def eval_list)

lemma three_point_backward:
  "backward_part three_point_args =
     [[Complex 1 1, Complex 0 (- 1 / 2), Complex 0 0],
      [Complex 0 (- 1 / 2), Complex 1 1, Complex 0 (- 1 / 2)],
      [Complex 0 0, Complex 0 (- 1 / 2), Complex 1 1]]"
  by (simp add: backward_part_def three_point_hamiltonian scale_def mat_sub_def eye_def)
     (simp add: three_point_args_def eval_list complex_eq_iff)

lemma three_point_gauss_jordan:
  "gauss_jordan (backward_part three_point_args) =
     Some [[Complex (37 / 68) (- 29 / 68), Complex (4 / 17) (1 / 17), Complex (3 / 68) (5 / 68)],
           [Complex (4 / 17) (1 / 17), Complex (10 / 17) (- 6 / 17), Complex (4 / 17) (1 / 17)],
           [Complex (3 / 68) (5 / 68), Complex (4 / 17) (1 / 17), Complex (37 / 68) (- 29 / 68)]]"
  unfolding three_point_backward
  by (simp add: gauss_jordan_def eye_def eliminate_def eval_list Complex_arith)

lemma three_point_inverts: "inverts gauss_jordan (backward_part three_point_args)"
  unfolding inverts_def three_point_gauss_jordan option.case is_inverse_of_def
  unfolding three_point_backward
  by (simp add: square_def dot_mm_def ncols_def eye_def eval_list Complex_arith)

lemma barrier_valid: "valid_config barrier_args"
  by (simp add: valid_config_def barrier_args_def)

lemma barrier_grid:
  "grid_dx barrier_args = 1" "grid_x barrier_args = [- 1, 0, 1]"
  by (simp_all add: grid_dx_def grid_x_def linspace_def barrier_args_def eval_list)

lemma barrier_barrier: "barrier barrier_args = [0, 0, 1]"
  by (simp add: barrier_def barrier_grid) (simp add: barrier_args_def)

lemma barrier_hamiltonian:
  "hamiltonian_matrix barrier_args = [[1, - 1 / 2, 0], [- 1 / 2, 1, - 1 / 2], [0, - 1 / 2, 2]]"
  by (simp add: hamiltonian_matrix_def diags_def diag_elements_def off_diag_elements_def
      barrier_barrier barrier_grid np_ones_def Let_def)
     (simp add: barrier_args_def eval_list)

lemma barrier_backward:
  "backward_part barrier_args =
     [[Complex 1 1, Complex 0 (- 1 / 2), Complex 0 0],
      [Complex 0 (- 1 / 2), Complex 1 1, Complex 0 (- 1 / 2)],
      [Complex 0 0, Complex 0 (- 1 / 2), Complex 1 2]]"
  by (simp add: backward_part_def barrier_hamiltonian scale_def mat_sub_def eye_def)
     (simp add: barrier_args_def eval_list complex_eq_iff)

lemma barrier_gauss_jordan: "gauss_jordan (backward_part barrier_args) \<noteq> None"
  unfolding barrier_backward
  by (simp add: gauss_jordan_def eye_def eliminate_def eval_list Complex_arith)

lemma barrier_constructed: "is_Returned (construct gauss_jordan barrier_args)"
  using barrier_gauss_jordan
  by (auto simp: construct_def barrier_args_def)





section \<open>What construction computes\<close>

text \<open>
  C7. For a valid configuration, the potential profile of the constructed object has one value
  per grid point; the value at grid point \<open>i\<close> is \<open>potential_height\<close> when the coordinate
  \<open>x_values[i]\<close> lies strictly between 0 and \<open>potential_width\<close> and 0 otherwise; with
  \<open>potential_width = 0\<close> every value is 0.
\<close>

theorem potential_profile:
  assumes "valid_config args" and "construct la_inv args = Returned self"
  shows "length (potential_barrier self) = nat (grid_size args) \<and>
         length (x_values self) = nat (grid_size args) \<and>
         (\<forall>i < nat (grid_size args).
            potential_barrier self ! i =
              (if 0 < x_values self ! i \<and> x_values self ! i < potential_width args
               then potential_height args else 0)) \<and>
         (potential_width args = 0 \<longrightarrow>
            (\<forall>i < nat (grid_size args). potential_barrier self ! i = 0))"
proof -
  from construct_ReturnedD [OF assms(2)]
  have "potential_barrier self = barrier args" "x_values self = grid_x args" by simp_all
  then show ?thesis by (simp add: length_barrier length_grid_x barrier_nth)
qed

theorem potential_profile_witness:
  "valid_config barrier_args \<and>
   construct gauss_jordan barrier_args = Returned (result (construct gauss_jordan barrier_args)) \<and>
   potential_barrier (result (construct gauss_jordan barrier_args)) = [0, 0, 1]"
proof -
  let ?self = "result (construct gauss_jordan barrier_args)"
  have c: "construct gauss_jordan barrier_args = Returned ?self"
    using barrier_constructed by simp
  have x: "x_values ?self = [- 1, 0, 1]"
    using construct_ReturnedD(4) [OF c] by (simp add: barrier_grid)
  have n: "nat (grid_size barrier_args) = 3" "potential_width barrier_args = 2"
    "potential_height barrier_args = 1"
    by (simp_all add: barrier_args_def)
  from potential_profile [OF barrier_valid c]
  have len: "length (potential_barrier ?self) = 3"
    and nth: "\<forall>i<3. potential_barrier ?self ! i =
                (if 0 < [- 1, 0, 1::real] ! i \<and> [- 1, 0, 1::real] ! i < 2 then 1 else 0)"
    unfolding x n by simp_all
  have "potential_barrier ?self = [0, 0, 1]"
  proof (rule nth_equalityI)
    show "length (potential_barrier ?self) = length [0, 0, 1::real]" using len by simp
  next
    fix i assume "i < length (potential_barrier ?self)"
    then have "i = 0 \<or> i = 1 \<or> i = 2" using len by auto
    then show "potential_barrier ?self ! i = [0, 0, 1] ! i" using nth by auto
  qed
  with barrier_valid c show ?thesis by simp
qed

text \<open>
  C5. For a valid configuration with \<open>N\<close> grid points and grid spacing
  \<open>\<Delta>x = (x_max - x_min) / (N - 1)\<close>, the assembled Hamiltonian is an \<open>N \<times> N\<close> matrix whose
  diagonal entry \<open>i\<close> is \<open>1/\<Delta>x\<^sup>2 + potential[i]\<close>, whose entries next to the diagonal are all
  \<open>-0.5/\<Delta>x\<^sup>2\<close>, and whose other entries are zero; it is symmetric.
\<close>

theorem hamiltonian_tridiagonal:
  assumes "valid_config args"
  shows "square (nat (grid_size args)) (hamiltonian_matrix args) \<and>
         grid_dx args = (x_max args - x_min args) / (real_of_int (grid_size args) - 1) \<and>
         grid_dx args \<noteq> 0 \<and>
         (\<forall>i < nat (grid_size args). \<forall>j < nat (grid_size args).
            hamiltonian_matrix args ! i ! j =
              (if i = j then 1 / (grid_dx args)\<^sup>2 + barrier args ! i
               else if j = i + 1 \<or> i = j + 1 then - 0.5 / (grid_dx args)\<^sup>2
               else 0)) \<and>
         (\<forall>i < nat (grid_size args). \<forall>j < nat (grid_size args).
            hamiltonian_matrix args ! i ! j = hamiltonian_matrix args ! j ! i)"
proof -
  from assms have "2 \<le> grid_size args" by (rule valid_configD)
  then have "real (nat (grid_size args) - 1) = real_of_int (grid_size args) - 1"
    by (simp add: of_nat_diff)
  then have "grid_dx args = (x_max args - x_min args) / (real_of_int (grid_size args) - 1)"
    by (simp add: grid_dx_eq)
  moreover have "grid_dx args \<noteq> 0"
    using valid_configD(1,2) [OF assms] by (rule grid_dx_nonzero)
  ultimately show ?thesis
    using hamiltonian_symmetric [of _ args]
    by (simp add: square_hamiltonian hamiltonian_nth)
qed

theorem hamiltonian_tridiagonal_witness:
  "valid_config barrier_args \<and>
   square 3 (hamiltonian_matrix barrier_args) \<and>
   grid_dx barrier_args = 1 \<and>
   hamiltonian_matrix barrier_args ! 2 ! 2 = 1 / 1\<^sup>2 + barrier barrier_args ! 2 \<and>
   hamiltonian_matrix barrier_args ! 0 ! 1 = - 0.5 / 1\<^sup>2 \<and>
   hamiltonian_matrix barrier_args ! 1 ! 0 = - 0.5 / 1\<^sup>2 \<and>
   hamiltonian_matrix barrier_args ! 0 ! 2 = 0 \<and>
   hamiltonian_matrix barrier_args = [[1, - 1 / 2, 0], [- 1 / 2, 1, - 1 / 2], [0, - 1 / 2, 2]]"
proof -
  have n: "nat (grid_size barrier_args) = 3" by (simp add: barrier_args_def)
  from hamiltonian_tridiagonal [OF barrier_valid]
  have sq: "square 3 (hamiltonian_matrix barrier_args)"
    and nth: "\<forall>i<3. \<forall>j<3. hamiltonian_matrix barrier_args ! i ! j =
              (if i = j then 1 / (grid_dx barrier_args)\<^sup>2 + barrier barrier_args ! i
               else if j = i + 1 \<or> i = j + 1 then - 0.5 / (grid_dx barrier_args)\<^sup>2
               else 0)"
    unfolding n by simp_all
  have "hamiltonian_matrix barrier_args ! 2 ! 2 = 1 / 1\<^sup>2 + barrier barrier_args ! 2"
    "hamiltonian_matrix barrier_args ! 0 ! 1 = - 0.5 / 1\<^sup>2"
    "hamiltonian_matrix barrier_args ! 1 ! 0 = - 0.5 / 1\<^sup>2"
    "hamiltonian_matrix barrier_args ! 0 ! 2 = 0"
    using nth by (simp_all add: barrier_grid)
  with sq show ?thesis by (simp add: barrier_valid barrier_grid barrier_hamiltonian)
qed


text \<open>
  C6. For a valid configuration, the initial wave function of the constructed object has one
  entry per grid point, and its entry at the grid point \<open>x = x_values[i]\<close> is
  \<open>(2\<pi>\<sigma>\<^sup>2)\<^sup>-\<^sup>1\<^sup>/\<^sup>4 \<cdot> exp(-(x - center)\<^sup>2 / (4\<sigma>\<^sup>2)) \<cdot> exp(i \<cdot> k \<cdot> x)\<close> with \<open>\<sigma>\<close> the
  packet width, \<open>center\<close> the packet center and \<open>k\<close> the wave number.
\<close>

theorem initial_wave_function_is_packet:
  assumes "valid_config args" and "construct la_inv args = Returned self"
  shows "length (wave_function self) = nat (grid_size args) \<and>
         (\<forall>i < nat (grid_size args).
            wave_function self ! i =
              spec_packet (packet_width args) (packet_center args) (wave_number args)
                (x_values self ! i))"
proof -
  from construct_ReturnedD [OF assms(2)]
  have "wave_function self = initial_wave_function args" "x_values self = grid_x args"
    by simp_all
  then show ?thesis
    by (simp add: length_initial_wave_function initial_wave_function_nth spec_packet_def)
qed

theorem initial_wave_function_is_packet_witness:
  "valid_config barrier_args \<and>
   construct gauss_jordan barrier_args = Returned (result (construct gauss_jordan barrier_args)) \<and>
   wave_function (result (construct gauss_jordan barrier_args)) ! 2 = spec_packet 1 0 1 1"
proof -
  let ?self = "result (construct gauss_jordan barrier_args)"
  have c: "construct gauss_jordan barrier_args = Returned ?self"
    using barrier_constructed by simp
  have x: "x_values ?self = [- 1, 0, 1]"
    using construct_ReturnedD(4) [OF c] by (simp add: barrier_grid)
  from initial_wave_function_is_packet [OF barrier_valid c]
  have "wave_function ?self ! 2 = spec_packet 1 0 1 1"
    unfolding x by (simp add: barrier_args_def)
  with barrier_valid c show ?thesis by simp
qed

text \<open>
  C1. For a valid configuration for which the library inverts the matrix it is given, the
  propagation operator of the constructed object is \<open>X \<cdot> (I - i\<Delta>t/2 \<cdot> H)\<close>, where \<open>X\<close> is what
  the library returns on \<open>I + i\<Delta>t/2 \<cdot> H\<close> and is the inverse of that matrix on both sides:
  the operator is \<open>(I + i\<Delta>t/2 \<cdot> H)\<^sup>-\<^sup>1 (I - i\<Delta>t/2 \<cdot> H)\<close>. The code writes the two factors as
  \<open>I - \<Delta>t/(2i) \<cdot> H\<close> and \<open>I + \<Delta>t/(2i) \<cdot> H\<close>; dividing by \<open>2i\<close> is multiplying by \<open>-i/2\<close>.
\<close>

theorem propagation_operator_is_crank_nicolson:
  assumes "valid_config args" and "inverts la_inv (backward_part args)"
  shows "\<exists>self X.
           construct la_inv args = Returned self \<and>
           la_inv (spec_implicit_factor (nat (grid_size args)) (time_step args)
                     (hamiltonian_matrix args)) = Some X \<and>
           is_inverse_of X (spec_implicit_factor (nat (grid_size args)) (time_step args)
                              (hamiltonian_matrix args)) \<and>
           evolution_operator self =
             dot_mm X (spec_explicit_factor (nat (grid_size args)) (time_step args)
                         (hamiltonian_matrix args))"
proof -
  from assms(2) obtain X where X: "la_inv (backward_part args) = Some X"
    and inv: "is_inverse_of X (backward_part args)"
    by (auto simp: inverts_def split: option.splits)
  from construct_Returned [where la_inv = la_inv and args = args and X = X,
      OF valid_configD(1,2,3) [OF assms(1)] X] X inv
  show ?thesis
    unfolding backward_part_spec forward_part_spec by auto
qed

theorem propagation_operator_is_crank_nicolson_witness:
  "valid_config three_point_args \<and> inverts gauss_jordan (backward_part three_point_args) \<and>
   (\<exists>self X.
      construct gauss_jordan three_point_args = Returned self \<and>
      gauss_jordan (spec_implicit_factor 3 2 (hamiltonian_matrix three_point_args)) = Some X \<and>
      is_inverse_of X (spec_implicit_factor 3 2 (hamiltonian_matrix three_point_args)) \<and>
      evolution_operator self =
        dot_mm X (spec_explicit_factor 3 2 (hamiltonian_matrix three_point_args)))"
proof -
  have n: "nat (grid_size three_point_args) = 3" "time_step three_point_args = 2"
    by (simp_all add: three_point_args_def)
  from propagation_operator_is_crank_nicolson [OF three_point_valid three_point_inverts]
  show ?thesis unfolding n using three_point_valid three_point_inverts by simp
qed







section \<open>No step of a constructed object loses the wave function\<close>

lemma all_zero_iff: "v = replicate (length v) 0 \<longleftrightarrow> (\<forall>z \<in> set v. z = 0)"
  by (metis in_set_replicate replicate_length_same)

text \<open>
  A matrix \<open>I - i t H\<close> with \<open>H\<close> real and symmetric sends only the zero vector to zero: if
  \<open>v = i t H v\<close>, then \<open>\<Sum> |v\<^sub>i|\<^sup>2 = i t \<cdot> (v\<^sup>* H v)\<close>, and \<open>v\<^sup>* H v\<close> is real.
\<close>

lemma skew_kernel_trivial:
  fixes h :: "nat \<Rightarrow> nat \<Rightarrow> real" and v :: "nat \<Rightarrow> complex" and t :: real
  assumes sym: "\<And>i k. i < n \<Longrightarrow> k < n \<Longrightarrow> h i k = h k i"
    and eq: "\<And>i. i < n \<Longrightarrow> v i = \<i> * complex_of_real t * (\<Sum>k<n. complex_of_real (h i k) * v k)"
    and i: "i < n"
  shows "v i = 0"
proof -
  define S where "S = (\<Sum>i<n. \<Sum>k<n. cnj (v i) * (complex_of_real (h i k) * v k))"
  have "cnj S = (\<Sum>i<n. \<Sum>k<n. cnj (v k) * (complex_of_real (h i k) * v i))"
    by (simp add: S_def mult_ac)
  also have "\<dots> = (\<Sum>k<n. \<Sum>i<n. cnj (v k) * (complex_of_real (h i k) * v i))"
    by (rule sum.swap)
  also have "\<dots> = S"
    unfolding S_def by (intro sum.cong refl) (simp add: sym)
  finally have "Im S = 0"
    by (metis Reals_cnj_iff complex_is_Real_iff)
  have "(\<Sum>i<n. cnj (v i) * v i) =
        (\<Sum>i<n. cnj (v i) * (\<i> * complex_of_real t * (\<Sum>k<n. complex_of_real (h i k) * v k)))"
    by (rule sum.cong) (use eq in auto)
  also have "\<dots> = \<i> * complex_of_real t * S"
    by (simp add: S_def sum_distrib_left mult_ac)
  finally have "Re (\<Sum>i<n. cnj (v i) * v i) = Re (\<i> * complex_of_real t * S)"
    by simp
  also have "\<dots> = 0" using \<open>Im S = 0\<close> by simp
  finally have "(\<Sum>i<n. Re (cnj (v i) * v i)) = 0"
    by (simp only: Re_sum)
  moreover have "Re (cnj z * z) = (cmod z)\<^sup>2" for z
    unfolding cmod_power2 by (simp add: power2_eq_square)
  ultimately have "(\<Sum>i<n. (cmod (v i))\<^sup>2) = 0"
    by simp
  then have "\<forall>i \<in> {..<n}. (cmod (v i))\<^sup>2 = 0"
    by (subst (asm) sum_nonneg_eq_0_iff) auto
  with i show ?thesis by simp
qed

lemma forward_part_injective:
  assumes v: "length v = nat (grid_size args)"
    and z: "dot_mv (forward_part args) v = replicate (nat (grid_size args)) 0"
  shows "v = replicate (nat (grid_size args)) 0"
proof -
  let ?n = "nat (grid_size args)"
  let ?h = "\<lambda>i k. hamiltonian_matrix args ! i ! k"
  have row: "v ! i = \<i> * complex_of_real (time_step args / 2) *
                     (\<Sum>k<?n. complex_of_real (?h i k) * v ! k)" if i: "i < ?n" for i
  proof -
    have "dot_mv (forward_part args) v ! i = 0" using z i by simp
    moreover have "dot_mv (forward_part args) v ! i =
        (\<Sum>k<?n. ((if i = k then 1 else 0) -
           \<i> * complex_of_real (time_step args) / 2 * complex_of_real (?h i k)) * v ! k)"
      using i v square_forward_part [of args]
      by (simp add: dot_mv_nth square_length forward_part_nth)
    moreover have "\<dots> = (\<Sum>k<?n. (if k = i then v ! k else 0)) -
        \<i> * complex_of_real (time_step args / 2) * (\<Sum>k<?n. complex_of_real (?h i k) * v ! k)"
      unfolding sum_distrib_left sum_subtractf [symmetric]
      by (rule sum.cong) (auto simp: algebra_simps)
    moreover have "(\<Sum>k<?n. (if k = i then v ! k else 0)) = v ! i" using i by simp
    ultimately show ?thesis by simp
  qed
  have "v ! i = 0" if "i < ?n" for i
    by (rule skew_kernel_trivial [where h = ?h and n = ?n and t = "time_step args / 2"])
       (use that row hamiltonian_symmetric in auto)
  with v show ?thesis by (intro nth_equalityI) simp_all
qed

lemma inverse_injective:
  assumes inv: "is_inverse_of X M" and M: "square n M" and w: "length w = n"
    and z: "dot_mv X w = replicate n 0"
  shows "w = replicate n 0"
proof -
  from M have n: "length M = n" by (rule square_length)
  with inv have X: "square n X" and MX: "dot_mm M X = eye n"
    by (simp_all add: is_inverse_of_def)
  have "w = dot_mv (dot_mm M X) w" by (simp add: MX dot_mv_eye w)
  also have "\<dots> = dot_mv M (dot_mv X w)" by (rule dot_mv_dot_mm [OF M X w])
  also have "\<dots> = replicate n 0" by (simp add: z dot_mv_zero [OF M])
  finally show ?thesis .
qed

lemma inverse_cancel:
  assumes inv: "is_inverse_of X M" and M: "square n M" and w: "length w = n"
  shows "dot_mv X (dot_mv M w) = w" "dot_mv M (dot_mv X w) = w"
proof -
  from M have n: "length M = n" by (rule square_length)
  with inv have X: "square n X" and MX: "dot_mm M X = eye n" and XM: "dot_mm X M = eye n"
    by (simp_all add: is_inverse_of_def)
  show "dot_mv X (dot_mv M w) = w"
    using dot_mv_dot_mm [OF X M w] by (simp add: XM dot_mv_eye w)
  show "dot_mv M (dot_mv X w) = w"
    using dot_mv_dot_mm [OF M X w] by (simp add: MX dot_mv_eye w)
qed

lemma initial_wave_function_nonzero:
  assumes "i < nat (grid_size args)" "packet_width args \<noteq> 0"
  shows "initial_wave_function args ! i \<noteq> 0"
  using assms by (simp add: initial_wave_function_nth)

lemma construct_nondegenerate:
  assumes c: "construct la_inv args = Returned self"
    and inv: "inverts la_inv (backward_part args)"
  shows "nondegenerate (nat (grid_size args)) self"
proof -
  let ?n = "nat (grid_size args)"
  note d = construct_ReturnedD [OF c]
  from d(9) inv obtain X where U: "evolution_operator self = dot_mm X (forward_part args)"
    and X: "is_inverse_of X (backward_part args)"
    by (auto simp: inverts_def)
  have sqA: "square ?n (backward_part args)" by (rule square_backward_part)
  have sqB: "square ?n (forward_part args)" by (rule square_forward_part)
  from X sqA have sqX: "square ?n X" by (simp add: is_inverse_of_def square_length)
  have "wave_function self ! 0 \<noteq> 0"
    using d(1,3,6) by (simp add: initial_wave_function_nonzero)
  moreover have "0 < ?n" using d(1) by simp
  ultimately have nz: "wave_function self \<noteq> replicate ?n 0" by auto
  have inj: "v = replicate ?n 0"
    if v: "length v = ?n" and z: "dot_mv (evolution_operator self) v = replicate ?n 0" for v
  proof -
    from z have "dot_mv X (dot_mv (forward_part args) v) = replicate ?n 0"
      by (simp add: U dot_mv_dot_mm [OF sqX sqB v])
    then have "dot_mv (forward_part args) v = replicate ?n 0"
      by (rule inverse_injective [OF X sqA, rotated])
         (simp add: length_dot_mv square_length [OF sqB])
    with v show ?thesis by (rule forward_part_injective)
  qed
  show ?thesis
    unfolding nondegenerate_def
    using d(6) nz inj by (simp add: length_initial_wave_function U square_dot_mm [OF sqX sqB])
qed


lemma nondegenerate_shapes: "nondegenerate n self \<Longrightarrow> shapes_agree self"
  by (simp add: nondegenerate_def shapes_agree_def square_def)

lemma nondegenerate_total:
  assumes "nondegenerate n self"
  shows "total_probability_of self \<noteq> 0"
proof
  let ?w = "dot_mv (evolution_operator self) (wave_function self)"
  assume "total_probability_of self = 0"
  then have "\<forall>z \<in> set ?w. z = 0"
    by (simp add: total_probability_of_def py_sum_eq sum_list_sq_eq_0)
  moreover have "length ?w = n"
    using assms by (simp add: length_dot_mv nondegenerate_def square_def)
  ultimately have "?w = replicate n 0"
    using all_zero_iff [of ?w] by simp
  with assms show False unfolding nondegenerate_def by blast
qed

lemma same_but_state_refl: "same_but_state self self"
  by (simp add: same_but_state_def)

lemma same_but_state_trans:
  "same_but_state a b \<Longrightarrow> same_but_state b c \<Longrightarrow> same_but_state a c"
  unfolding same_but_state_def
  by (cases a, cases b, cases c) simp

lemma evolve_same_but_state:
  "evolve_wave_function self = Returned (self', density) \<Longrightarrow>
   same_but_state self self' \<and> density = prob_density self'"
  by (auto simp: evolve_wave_function_def same_but_state_def Let_def split: if_splits)

lemma step_nondegenerate:
  assumes nd: "nondegenerate n self"
  shows "\<exists>self' density.
           evolve_wave_function self = Returned (self', density) \<and> nondegenerate n self'"
proof -
  let ?t = "total_probability_of self"
  let ?w = "dot_mv (evolution_operator self) (wave_function self)"
  let ?w' = "map (\<lambda>z. z / complex_of_real (?t powr 0.5)) ?w"
  have t: "?t \<noteq> 0" by (rule nondegenerate_total [OF nd])
  with total_probability_nonneg [of self] have pos: "0 < ?t" by simp
  have len: "length ?w = n"
    using nd by (simp add: length_dot_mv nondegenerate_def square_def)
  have w: "?w \<noteq> replicate n 0"
    using nd by (auto simp: nondegenerate_def)
  have "?w' \<noteq> replicate n 0"
  proof
    assume "?w' = replicate n 0"
    then have "\<forall>z \<in> set ?w'. z = 0" by simp
    then have "\<forall>z \<in> set ?w. z = 0" using pos by simp
    then have "?w = replicate n 0" using all_zero_iff [of ?w] len by simp
    with w show False ..
  qed
  then show ?thesis
    using nd len unfolding evolve_Returned [OF nondegenerate_shapes [OF nd] t]
    by (simp add: nondegenerate_def)
qed

lemma evolve_times_nondegenerate:
  "nondegenerate n self \<Longrightarrow>
   \<exists>self'. evolve_times k self = Returned self' \<and> nondegenerate n self' \<and>
           same_but_state self self'"
proof (induction k arbitrary: self)
  case 0
  then show ?case by (simp add: same_but_state_refl)
next
  case (Suc k)
  from step_nondegenerate [OF Suc.prems] obtain s1 d
    where s1: "evolve_wave_function self = Returned (s1, d)" "nondegenerate n s1"
    by blast
  from Suc.IH [OF s1(2)] obtain s2
    where s2: "evolve_times k s1 = Returned s2" "nondegenerate n s2" "same_but_state s1 s2"
    by blast
  from evolve_same_but_state [OF s1(1)] s2(3) have "same_but_state self s2"
    by (blast intro: same_but_state_trans)
  with s1 s2 show ?case by simp
qed


lemma same_but_stateD:
  assumes "same_but_state a b"
  shows "x_values b = x_values a" "delta_x b = delta_x a"
    "potential_barrier b = potential_barrier a"
    "evolution_operator b = evolution_operator a"
    "grid_size b = grid_size a" "time_step b = time_step a"
    "potential_height b = potential_height a" "potential_width b = potential_width a"
    "packet_width b = packet_width a" "wave_number b = wave_number a"
    "packet_center b = packet_center a"
proof -
  from assms
  have eq: "b = a\<lparr>wave_function := wave_function b, prob_density := prob_density b\<rparr>"
    by (simp add: same_but_state_def)
  show "x_values b = x_values a" by (subst eq) simp
  show "delta_x b = delta_x a" by (subst eq) simp
  show "potential_barrier b = potential_barrier a" by (subst eq) simp
  show "evolution_operator b = evolution_operator a" by (subst eq) simp
  show "grid_size b = grid_size a" by (subst eq) simp
  show "time_step b = time_step a" by (subst eq) simp
  show "potential_height b = potential_height a" by (subst eq) simp
  show "potential_width b = potential_width a" by (subst eq) simp
  show "packet_width b = packet_width a" by (subst eq) simp
  show "wave_number b = wave_number a" by (subst eq) simp
  show "packet_center b = packet_center a" by (subst eq) simp
qed

lemma three_point_barrier: "barrier three_point_args = [0, 0, 0]"
  by (simp add: barrier_def three_point_grid) (simp add: three_point_args_def)

text \<open>
  C9. For a valid configuration for which the library inverts the matrix it is given,
  construction returns an object, and every number of successive calls of
  \<open>evolve_wave_function\<close> on it returns: the object is then the constructed one but for
  \<open>wave_function\<close> and \<open>prob_density\<close>, so the grid positions, the grid spacing, the potential
  profile and the propagation operator are the ones computed at construction. The Hamiltonian
  is a local value of \<open>__init__\<close>; a step has no access to it. On any object at all, a call
  that returns changes no attribute but \<open>wave_function\<close> and \<open>prob_density\<close>.
\<close>

theorem steps_change_only_the_state:
  assumes "valid_config args" and "inverts la_inv (backward_part args)"
  shows "\<exists>self.
           construct la_inv args = Returned self \<and>
           (\<forall>k. \<exists>self'.
              evolve_times k self = Returned self' \<and>
              same_but_state self self' \<and>
              x_values self' = grid_x args \<and>
              delta_x self' = grid_dx args \<and>
              potential_barrier self' = barrier args \<and>
              evolution_operator self' = evolution_operator self) \<and>
           (\<forall>obj obj' density.
              evolve_wave_function obj = Returned (obj', density) \<longrightarrow> same_but_state obj obj')"
proof -
  from assms(2) obtain X where X: "la_inv (backward_part args) = Some X"
    by (auto simp: inverts_def split: option.splits)
  let ?self = "result (construct la_inv args)"
  have c: "construct la_inv args = Returned ?self"
    using construct_Returned [where la_inv = la_inv and args = args and X = X,
        OF valid_configD(1,2,3) [OF assms(1)] X]
    by simp
  note d = construct_ReturnedD [OF c]
  have nd: "nondegenerate (nat (grid_size args)) ?self"
    by (rule construct_nondegenerate [OF c assms(2)])
  have "\<exists>self'. evolve_times k ?self = Returned self' \<and> same_but_state ?self self' \<and>
          x_values self' = grid_x args \<and> delta_x self' = grid_dx args \<and>
          potential_barrier self' = barrier args \<and>
          evolution_operator self' = evolution_operator ?self" for k
  proof -
    from evolve_times_nondegenerate [OF nd, of k] obtain s
      where s: "evolve_times k ?self = Returned s" "same_but_state ?self s"
      by blast
    from same_but_stateD(1-4) [OF s(2)] s d(4,5,7) show ?thesis by simp
  qed
  with c evolve_same_but_state show ?thesis by blast
qed

theorem steps_change_only_the_state_witness:
  "valid_config three_point_args \<and> inverts gauss_jordan (backward_part three_point_args) \<and>
   (\<exists>self.
      construct gauss_jordan three_point_args = Returned self \<and>
      (\<exists>self'.
         evolve_times 2 self = Returned self' \<and>
         same_but_state self self' \<and>
         x_values self' = [- 1, 0, 1] \<and>
         delta_x self' = 1 \<and>
         potential_barrier self' = [0, 0, 0] \<and>
         evolution_operator self' = evolution_operator self))"
proof -
  from steps_change_only_the_state [OF three_point_valid three_point_inverts]
  obtain self where c: "construct gauss_jordan three_point_args = Returned self"
    and k: "\<forall>k. \<exists>self'.
              evolve_times k self = Returned self' \<and>
              same_but_state self self' \<and>
              x_values self' = grid_x three_point_args \<and>
              delta_x self' = grid_dx three_point_args \<and>
              potential_barrier self' = barrier three_point_args \<and>
              evolution_operator self' = evolution_operator self"
    by blast
  from k [rule_format, of 2] c show ?thesis
    by (simp add: three_point_valid three_point_inverts three_point_grid three_point_barrier)
qed


section \<open>Mirror symmetry\<close>

text \<open>
  A square matrix whose entries do not change when both indices are mirrored commutes with the
  reversal of vectors.
\<close>

lemma centro_commutes:
  assumes sq: "square n M"
    and c: "\<And>i j. i < n \<Longrightarrow> j < n \<Longrightarrow> M ! (n - Suc i) ! (n - Suc j) = M ! i ! j"
  shows "commutes_with_rev n M"
  unfolding commutes_with_rev_def
proof (intro allI impI)
  fix v :: "complex list" assume v: "length v = n"
  show "dot_mv M (rev v) = rev (dot_mv M v)"
  proof (rule nth_equalityI)
    show "length (dot_mv M (rev v)) = length (rev (dot_mv M v))"
      by (simp add: length_dot_mv)
  next
    fix i assume "i < length (dot_mv M (rev v))"
    with sq have i: "i < n" by (simp add: length_dot_mv square_def)
    then have i': "n - Suc i < n" by simp
    have "rev (dot_mv M v) ! i = dot_mv M v ! (n - Suc i)"
      using i sq by (simp add: rev_nth length_dot_mv square_length)
    also have "\<dots> = (\<Sum>k<n. M ! (n - Suc i) ! k * v ! k)"
      using i' sq v by (simp add: dot_mv_nth square_length)
    also have "\<dots> = (\<Sum>k<n. M ! (n - Suc i) ! (n - Suc k) * v ! (n - Suc k))"
      by (rule sum.nat_diff_reindex [symmetric])
    also have "\<dots> = (\<Sum>k<n. M ! i ! k * rev v ! k)"
      by (rule sum.cong) (use i v c in \<open>simp_all add: rev_nth\<close>)
    also have "\<dots> = dot_mv M (rev v) ! i"
      using i sq v by (simp add: dot_mv_nth square_length)
    finally show "dot_mv M (rev v) ! i = rev (dot_mv M v) ! i" by simp
  qed
qed

lemma inverse_commutes:
  assumes inv: "is_inverse_of X M" and M: "square n M" and cM: "commutes_with_rev n M"
  shows "commutes_with_rev n X"
  unfolding commutes_with_rev_def
proof (intro allI impI)
  fix v :: "complex list" assume v: "length v = n"
  from M inv have X: "square n X" by (simp add: is_inverse_of_def square_length)
  have lx: "length (dot_mv X v) = n" "length (dot_mv X (rev v)) = n"
    using X by (simp_all add: length_dot_mv square_length)
  have "dot_mv M (rev (dot_mv X v)) = rev (dot_mv M (dot_mv X v))"
    using cM lx(1) by (simp add: commutes_with_rev_def)
  also have "\<dots> = rev v" by (simp add: inverse_cancel(2) [OF inv M v])
  also have "\<dots> = dot_mv M (dot_mv X (rev v))"
    using inverse_cancel(2) [OF inv M, of "rev v"] v by simp
  finally have "dot_mv X (dot_mv M (rev (dot_mv X v))) = dot_mv X (dot_mv M (dot_mv X (rev v)))"
    by simp
  then have "rev (dot_mv X v) = dot_mv X (rev v)"
    using inverse_cancel(1) [OF inv M, of "rev (dot_mv X v)"]
      inverse_cancel(1) [OF inv M, of "dot_mv X (rev v)"] lx
    by simp
  then show "dot_mv X (rev v) = rev (dot_mv X v)" by simp
qed

lemma product_commutes:
  assumes X: "square n X" and B: "square n B"
    and cX: "commutes_with_rev n X" and cB: "commutes_with_rev n B"
  shows "commutes_with_rev n (dot_mm X B)"
  unfolding commutes_with_rev_def
proof (intro allI impI)
  fix v :: "complex list" assume v: "length v = n"
  have lb: "length (dot_mv B v) = n" using B by (simp add: length_dot_mv square_length)
  have "dot_mv (dot_mm X B) (rev v) = dot_mv X (dot_mv B (rev v))"
    using v by (simp add: dot_mv_dot_mm [OF X B])
  also have "\<dots> = dot_mv X (rev (dot_mv B v))"
    using cB v by (simp add: commutes_with_rev_def)
  also have "\<dots> = rev (dot_mv X (dot_mv B v))"
    using cX lb by (simp add: commutes_with_rev_def)
  also have "\<dots> = rev (dot_mv (dot_mm X B) v)"
    by (simp add: dot_mv_dot_mm [OF X B v])
  finally show "dot_mv (dot_mm X B) (rev v) = rev (dot_mv (dot_mm X B) v)" .
qed

text \<open>Without a barrier the Hamiltonian does not change when both indices are mirrored.\<close>

lemma free_hamiltonian_mirror:
  assumes h: "potential_height args = 0"
    and i: "i < nat (grid_size args)" and j: "j < nat (grid_size args)"
  shows "hamiltonian_matrix args ! (nat (grid_size args) - Suc i) ! (nat (grid_size args) - Suc j) =
         hamiltonian_matrix args ! i ! j"
proof -
  let ?n = "nat (grid_size args)"
  have b: "barrier args ! k = 0" if "k < ?n" for k
    using that h by (simp add: barrier_nth)
  have i': "?n - Suc i < ?n" and j': "?n - Suc j < ?n" using i j by simp_all
  have "(?n - Suc i = ?n - Suc j) = (i = j)"
    "(?n - Suc j = Suc (?n - Suc i)) = (i = Suc j)"
    "(?n - Suc i = Suc (?n - Suc j)) = (j = Suc i)"
    using i j by linarith+
  then show ?thesis
    using i j i' j' by (simp add: hamiltonian_nth b) 
qed

lemma free_factors_commute:
  assumes "potential_height args = 0"
  shows "commutes_with_rev (nat (grid_size args)) (backward_part args)"
    and "commutes_with_rev (nat (grid_size args)) (forward_part args)"
proof -
  let ?n = "nat (grid_size args)"
  have m: "(?n - Suc i = ?n - Suc j) = (i = j)" if "i < ?n" "j < ?n" for i j
    using that by linarith
  show "commutes_with_rev ?n (backward_part args)"
    by (rule centro_commutes [OF square_backward_part])
       (simp add: backward_part_nth free_hamiltonian_mirror [OF assms] m)
  show "commutes_with_rev ?n (forward_part args)"
    by (rule centro_commutes [OF square_forward_part])
       (simp add: forward_part_nth free_hamiltonian_mirror [OF assms] m)
qed

text \<open>A packet at rest in the middle of the grid is its own mirror image.\<close>

lemma centered_packet_mirror:
  assumes n: "2 \<le> grid_size args" and k: "wave_number args = 0"
    and c: "packet_center args = (x_min args + x_max args) / 2"
  shows "rev (initial_wave_function args) = initial_wave_function args"
proof (rule nth_equalityI)
  show "length (rev (initial_wave_function args)) = length (initial_wave_function args)"
    by simp
next
  let ?n = "nat (grid_size args)"
  fix i assume "i < length (rev (initial_wave_function args))"
  then have i: "i < ?n" by (simp add: length_initial_wave_function)
  then have i': "?n - Suc i < ?n" by simp
  have "grid_x args ! (?n - Suc i) - packet_center args = packet_center args - grid_x args ! i"
    using grid_x_reflect [OF n i] c by (simp add: field_simps)
  then have "(grid_x args ! (?n - Suc i) - packet_center args)\<^sup>2 =
             (packet_center args - grid_x args ! i)\<^sup>2"
    by (rule arg_cong)
  also have "\<dots> = (grid_x args ! i - packet_center args)\<^sup>2"
    by (rule power2_commute)
  finally show "rev (initial_wave_function args) ! i = initial_wave_function args ! i"
    using i i' k
    by (simp add: rev_nth length_initial_wave_function initial_wave_function_nth)
qed


lemma construct_mirror_symmetric:
  assumes c: "construct la_inv args = Returned self"
    and inv: "inverts la_inv (backward_part args)"
    and h: "potential_height args = 0" and k: "wave_number args = 0"
    and m: "packet_center args = (x_min args + x_max args) / 2"
  shows "mirror_symmetric (nat (grid_size args)) self"
proof -
  let ?n = "nat (grid_size args)"
  note d = construct_ReturnedD [OF c]
  from d(9) inv obtain X where U: "evolution_operator self = dot_mm X (forward_part args)"
    and X: "is_inverse_of X (backward_part args)"
    by (auto simp: inverts_def)
  have sqA: "square ?n (backward_part args)" by (rule square_backward_part)
  have sqB: "square ?n (forward_part args)" by (rule square_forward_part)
  from X sqA have sqX: "square ?n X" by (simp add: is_inverse_of_def square_length)
  have "commutes_with_rev ?n X"
    by (rule inverse_commutes [OF X sqA free_factors_commute(1) [OF h]])
  then have "commutes_with_rev ?n (evolution_operator self)"
    unfolding U by (rule product_commutes [OF sqX sqB _ free_factors_commute(2) [OF h]])
  moreover have "rev (wave_function self) = wave_function self"
    unfolding d(6) by (rule centered_packet_mirror [OF d(1) k m])
  ultimately show ?thesis by (simp add: mirror_symmetric_def)
qed

lemma step_mirror_symmetric:
  assumes nd: "nondegenerate n self" and ms: "mirror_symmetric n self"
  shows "\<exists>self' density.
           evolve_wave_function self = Returned (self', density) \<and>
           nondegenerate n self' \<and> mirror_symmetric n self' \<and>
           length density = n \<and> rev density = density"
proof -
  let ?w = "dot_mv (evolution_operator self) (wave_function self)"
  from step_nondegenerate [OF nd] obtain self' density
    where s: "evolve_wave_function self = Returned (self', density)" "nondegenerate n self'"
    by blast
  have len: "length ?w = n"
    using nd by (simp add: length_dot_mv nondegenerate_def square_def)
  from ms have cU: "commutes_with_rev n (evolution_operator self)"
    and rp: "rev (wave_function self) = wave_function self"
    by (simp_all add: mirror_symmetric_def)
  from nd have lp: "length (wave_function self) = n" by (simp add: nondegenerate_def)
  from cU lp
  have "dot_mv (evolution_operator self) (rev (wave_function self)) = rev ?w"
    unfolding commutes_with_rev_def by blast
  with rp have w: "rev ?w = ?w" by simp
  have "Returned
          (self\<lparr>wave_function :=
                  map (\<lambda>z. z / complex_of_real (total_probability_of self powr 0.5)) ?w,
                prob_density := map (\<lambda>z. (cmod z)\<^sup>2 / total_probability_of self) ?w\<rparr>,
           map (\<lambda>z. (cmod z)\<^sup>2 / total_probability_of self) ?w) =
        Returned (self', density)"
    using s(1)
    unfolding evolve_Returned [OF nondegenerate_shapes [OF nd] nondegenerate_total [OF nd]] .
  then have eq: "self\<lparr>wave_function :=
                  map (\<lambda>z. z / complex_of_real (total_probability_of self powr 0.5)) ?w,
                prob_density := map (\<lambda>z. (cmod z)\<^sup>2 / total_probability_of self) ?w\<rparr> = self'"
    and dens: "map (\<lambda>z. (cmod z)\<^sup>2 / total_probability_of self) ?w = density"
    by blast+
  have r: "wave_function self' =
        map (\<lambda>z. z / complex_of_real (total_probability_of self powr 0.5)) ?w"
      "evolution_operator self' = evolution_operator self"
    unfolding eq [symmetric] by simp_all
  have "rev (wave_function self') = wave_function self'"
    unfolding r(1) by (simp only: rev_map w)
  with ms have ms': "mirror_symmetric n self'"
    by (simp add: mirror_symmetric_def r(2))
  have "rev density = density"
    unfolding dens [symmetric] by (simp only: rev_map w)
  moreover have "length density = n" unfolding dens [symmetric] by (simp add: len)
  ultimately show ?thesis using s ms' by blast
qed

lemma evolve_times_mirror_symmetric:
  "nondegenerate n self \<Longrightarrow> mirror_symmetric n self \<Longrightarrow>
   \<exists>self'. evolve_times k self = Returned self' \<and> nondegenerate n self' \<and>
           mirror_symmetric n self'"
proof (induction k arbitrary: self)
  case 0
  then show ?case by simp
next
  case (Suc k)
  from step_mirror_symmetric [OF Suc.prems] obtain s1 d
    where s1: "evolve_wave_function self = Returned (s1, d)" "nondegenerate n s1"
      "mirror_symmetric n s1"
    by blast
  from Suc.IH [OF s1(2,3)] s1(1) show ?case by simp
qed

text \<open>
  C8. For a valid configuration with \<open>potential_height = 0\<close>, \<open>wave_number = 0\<close> and the packet
  center at the midpoint \<open>(x_min + x_max) / 2\<close> of the grid, for which the library inverts the
  matrix it is given: construction returns an object, every number \<open>k\<close> of calls on it returns,
  and the density that the next call returns, the one of call \<open>k + 1\<close>, has one entry per grid
  point and is its own mirror image: \<open>density[i] = density[N - 1 - i]\<close> for every \<open>i\<close>, exactly
  in exact arithmetic.
\<close>

theorem free_centered_density_symmetric:
  assumes "valid_config args"
    and "potential_height args = 0" and "wave_number args = 0"
    and "packet_center args = (x_min args + x_max args) / 2"
    and "inverts la_inv (backward_part args)"
  shows "\<exists>self.
           construct la_inv args = Returned self \<and>
           (\<forall>k. \<exists>self_k self' density.
              evolve_times k self = Returned self_k \<and>
              evolve_wave_function self_k = Returned (self', density) \<and>
              length density = nat (grid_size args) \<and>
              (\<forall>i < nat (grid_size args).
                 density ! i = density ! (nat (grid_size args) - 1 - i)))"
proof -
  let ?n = "nat (grid_size args)"
  from assms(5) obtain X where X: "la_inv (backward_part args) = Some X"
    by (auto simp: inverts_def split: option.splits)
  let ?self = "result (construct la_inv args)"
  have c: "construct la_inv args = Returned ?self"
    using construct_Returned [where la_inv = la_inv and args = args and X = X,
        OF valid_configD(1,2,3) [OF assms(1)] X]
    by simp
  have nd: "nondegenerate ?n ?self"
    by (rule construct_nondegenerate [OF c assms(5)])
  have ms: "mirror_symmetric ?n ?self"
    by (rule construct_mirror_symmetric [OF c assms(5) assms(2,3,4)])
  have "\<exists>self_k self' density.
          evolve_times k ?self = Returned self_k \<and>
          evolve_wave_function self_k = Returned (self', density) \<and>
          length density = ?n \<and> (\<forall>i < ?n. density ! i = density ! (?n - 1 - i))" for k
  proof -
    from evolve_times_mirror_symmetric [OF nd ms, of k] obtain s
      where s: "evolve_times k ?self = Returned s" "nondegenerate ?n s" "mirror_symmetric ?n s"
      by blast
    from step_mirror_symmetric [OF s(2,3)] obtain s' d
      where d: "evolve_wave_function s = Returned (s', d)" "length d = ?n" "rev d = d"
      by blast
    have "d ! i = d ! (?n - 1 - i)" if "i < ?n" for i
    proof -
      have "rev d ! i = d ! (?n - Suc i)" using that d(2) by (simp add: rev_nth)
      then show ?thesis by (simp add: d(3))
    qed
    with s(1) d(1,2) show ?thesis by blast
  qed
  with c show ?thesis by blast
qed

theorem free_centered_density_symmetric_witness:
  "valid_config three_point_args \<and>
   potential_height three_point_args = 0 \<and> wave_number three_point_args = 0 \<and>
   packet_center three_point_args = (x_min three_point_args + x_max three_point_args) / 2 \<and>
   inverts gauss_jordan (backward_part three_point_args) \<and>
   (\<exists>self self_k self' density.
      construct gauss_jordan three_point_args = Returned self \<and>
      evolve_times 2 self = Returned self_k \<and>
      evolve_wave_function self_k = Returned (self', density) \<and>
      length density = 3 \<and> density ! 0 = density ! 2)"
proof -
  have a: "potential_height three_point_args = 0" "wave_number three_point_args = 0"
    "packet_center three_point_args = (x_min three_point_args + x_max three_point_args) / 2"
    and n: "nat (grid_size three_point_args) = 3"
    by (simp_all add: three_point_args_def)
  from free_centered_density_symmetric [OF three_point_valid a three_point_inverts]
  obtain self where c: "construct gauss_jordan three_point_args = Returned self"
    and k: "\<forall>k. \<exists>self_k self' density.
              evolve_times k self = Returned self_k \<and>
              evolve_wave_function self_k = Returned (self', density) \<and>
              length density = 3 \<and> (\<forall>i < 3. density ! i = density ! (3 - 1 - i))"
    unfolding n by blast
  from k [rule_format, of 2] obtain self_k self' density
    where "evolve_times 2 self = Returned self_k"
      "evolve_wave_function self_k = Returned (self', density)"
      "length density = 3" "\<forall>i < 3. density ! i = density ! (3 - 1 - i)"
    by blast
  moreover from this(4) [rule_format, of 0] have "density ! 0 = density ! 2" by simp
  ultimately have "\<exists>self self_k self' density.
      construct gauss_jordan three_point_args = Returned self \<and>
      evolve_times 2 self = Returned self_k \<and>
      evolve_wave_function self_k = Returned (self', density) \<and>
      length density = 3 \<and> density ! 0 = density ! 2"
    using c by blast
  with three_point_valid a three_point_inverts show ?thesis by (intro conjI)
qed

end
